theory Spec2Isabelle
  imports Main
begin

section \<open>Strings of the HomeApp screens\<close>

text \<open>
  The screens of HomeApp (the components \<^verbatim>\<open>Index\<close>, \<^verbatim>\<open>HomeTab\<close> and \<^verbatim>\<open>ShoppingTab\<close>) work
  on JavaScript strings. A string is modelled as a \<^typ>\<open>string\<close>, each \<^typ>\<open>char\<close> standing
  for the code unit of the same number, U+0000 to U+00FF. On this range the built-ins the
  screens call are written out below as ECMAScript defines them.
\<close>

subsection \<open>\<^verbatim>\<open>String.prototype.trim\<close>, \<^verbatim>\<open>toLowerCase\<close>\<close>

text \<open>
  White space and line terminators of ECMAScript below U+0100: TAB, LF, VT, FF, CR, SP and
  NBSP. The same set is the class \<^verbatim>\<open>\s\<close> of a regular expression.
\<close>

definition isSpace :: "char \<Rightarrow> bool" where
  "isSpace c =
     (c \<in> set [CHR 0x09, CHR 0x0A, CHR 0x0B, CHR 0x0C, CHR 0x0D, CHR 0x20, CHR 0xA0])"

definition trim :: "string \<Rightarrow> string" where
  "trim s = rev (dropWhile isSpace (rev (dropWhile isSpace s)))"

text \<open>
  Lower-casing below U+0100: A to Z, and the capital letters U+00C0 to U+00DE without the
  multiplication sign U+00D7, move up by 32; every other code unit stays.
\<close>

definition toLowerChar :: "char \<Rightarrow> char" where
  "toLowerChar c =
     (let n = (of_char c :: nat)
      in if (65 \<le> n \<and> n \<le> 90) \<or> (192 \<le> n \<and> n \<le> 222 \<and> n \<noteq> 215)
         then char_of (n + 32) else c)"

definition toLowerCase :: "string \<Rightarrow> string" where
  "toLowerCase s = map toLowerChar s"

subsection \<open>The name normalizer \<^verbatim>\<open>toNameKey\<close>\<close>

text \<open>
  \<^verbatim>\<open>
  const toNameKey = (s: string) =>
    s.trim().toLowerCase()
      .replace(/\s+/g, "-")
      .replace(/[^a-z0-9-]/g, "")
      .replace(/-+/g, "-")
      .replace(/^-|-$/g, "")
      .slice(0, 40);
  \<close>
  Each \<^verbatim>\<open>replace\<close> is one function. A global replacement of \<^verbatim>\<open>\s+\<close> turns every
  maximal run of white space into one hyphen.
\<close>

function spacesToDash :: "string \<Rightarrow> string" where
  "spacesToDash [] = []"
| "spacesToDash (c # cs) =
     (if isSpace c then CHR ''-'' # spacesToDash (dropWhile isSpace cs)
      else c # spacesToDash cs)"
  by pat_completeness auto
termination
  by (relation "measure length") (auto simp: le_imp_less_Suc length_dropWhile_le)

definition isAlnumLower :: "char \<Rightarrow> bool" where
  "isAlnumLower c =
     (let n = (of_char c :: nat) in (97 \<le> n \<and> n \<le> 122) \<or> (48 \<le> n \<and> n \<le> 57))"

definition isDash :: "char \<Rightarrow> bool" where
  "isDash c = (c = CHR ''-'')"

definition isKeyChar :: "char \<Rightarrow> bool" where
  "isKeyChar c = (isAlnumLower c \<or> isDash c)"

text \<open>\<^verbatim>\<open>.replace(/[^a-z0-9-]/g, "")\<close> deletes every code unit outside the class.\<close>

definition stripInvalid :: "string \<Rightarrow> string" where
  "stripInvalid s = filter isKeyChar s"

text \<open>\<^verbatim>\<open>.replace(/-+/g, "-")\<close> turns every maximal run of hyphens into one hyphen.\<close>

function collapseDashes :: "string \<Rightarrow> string" where
  "collapseDashes [] = []"
| "collapseDashes (c # cs) =
     (if isDash c then CHR ''-'' # collapseDashes (dropWhile isDash cs)
      else c # collapseDashes cs)"
  by pat_completeness auto
termination
  by (relation "measure length") (auto simp: le_imp_less_Suc length_dropWhile_le)

text \<open>
  \<^verbatim>\<open>.replace(/^-|-$/g, "")\<close> has two alternatives, neither repeated: it deletes a hyphen
  at the very start, and then a hyphen at the very end of what is left. At most one
  code unit goes at each end.
\<close>

definition stripEdgeDash :: "string \<Rightarrow> string" where
  "stripEdgeDash s =
     (let t = (case s of [] \<Rightarrow> [] | c # cs \<Rightarrow> if isDash c then cs else s)
      in if t \<noteq> [] \<and> isDash (last t) then butlast t else t)"

definition toNameKey :: "string \<Rightarrow> string" where
  "toNameKey s =
     take 40 (stripEdgeDash (collapseDashes (stripInvalid
       (spacesToDash (toLowerCase (trim s))))))"

text \<open>The key before \<^verbatim>\<open>.slice(0, 40)\<close> cuts it.\<close>

definition untruncatedKey :: "string \<Rightarrow> string" where
  "untruncatedKey s =
     stripEdgeDash (collapseDashes (stripInvalid (spacesToDash (toLowerCase (trim s)))))"

subsection \<open>The normalizer as the specification words it\<close>

text \<open>
  The specification lists the steps as: trim white space, lowercase, collapse runs of
  white space to single hyphens, strip every character outside \<^verbatim>\<open>[a-z0-9-]\<close>, collapse
  repeated hyphens, trim leading and trailing hyphens, truncate to 40 characters.
  Trimming hyphens is written here as the words say it, all of them at both ends.
\<close>

definition trimDashes :: "string \<Rightarrow> string" where
  "trimDashes s = rev (dropWhile isDash (rev (dropWhile isDash s)))"

definition normalize_spec :: "string \<Rightarrow> string" where
  "normalize_spec s =
     take 40 (trimDashes (collapseDashes (stripInvalid
       (spacesToDash (toLowerCase (trim s))))))"

text \<open>
  The shape the specification requires of a non-empty key,
  \<^verbatim>\<open>^[a-z0-9]([a-z0-9-]{0,38}[a-z0-9])?$\<close>: one letter or digit, then optionally up to 38
  letters, digits or hyphens followed by one letter or digit.
\<close>

definition matchesKeyPattern :: "string \<Rightarrow> bool" where
  "matchesKeyPattern k =
     (case k of
        [] \<Rightarrow> False
      | c # cs \<Rightarrow>
          isAlnumLower c \<and>
          (cs = [] \<or>
           (length (butlast cs) \<le> 38 \<and> list_all isKeyChar (butlast cs) \<and>
            isAlnumLower (last cs))))"

text \<open>A string without two hyphens in a row.\<close>

fun noDoubleDash :: "string \<Rightarrow> bool" where
  "noDoubleDash (a # b # cs) = ((isDash a \<and> isDash b) = False \<and> noDoubleDash (b # cs))"
| "noDoubleDash _ = True"

text \<open>A name of 41 code units: 39 letters, a space, a letter.\<close>

definition longName :: string where
  "longName = ''aaaaaaaaaaaaaaaaaaaaaaaaaaaaaaaaaaaaaaa b''"

section \<open>The document store\<close>

text \<open>
  The screens keep two collections in Firestore. \<^verbatim>\<open>homepages\<close> holds one document for each
  HomePage, with the fields \<^verbatim>\<open>createdAt\<close>, \<^verbatim>\<open>name\<close> and \<^verbatim>\<open>nameKey\<close>; the screens read
  it as \<^verbatim>\<open>{ name?: string; nameKey?: string }\<close>, so every field may be missing.
  \<^verbatim>\<open>homepagesByName\<close> holds one document \<^verbatim>\<open>{ homePageId: string }\<close> for each claimed key.
\<close>

record homepage =
  createdAt :: "nat option"
  name :: "string option"
  nameKey :: "string option"

record firestore =
  homepages :: "string \<rightharpoonup> homepage"
  homepagesByName :: "string \<rightharpoonup> string"

text \<open>
  The device keeps the selected HomePage in \<^verbatim>\<open>AsyncStorage\<close> under \<^verbatim>\<open>STORAGE_KEY\<close>.
\<close>

record app =
  db :: firestore
  savedHomePageId :: "string option"

datatype docref = HomepageRef string | ByNameRef string

text \<open>
  What a transaction body does through \<^verbatim>\<open>tx\<close>, in the order it does it:
  \<^verbatim>\<open>tx.get(ref)\<close>, \<^verbatim>\<open>tx.set(hpRef, fields)\<close> with or without \<^verbatim>\<open>{ merge: true }\<close>,
  \<^verbatim>\<open>tx.set(mapRef, { homePageId }, { merge: true })\<close> and \<^verbatim>\<open>tx.delete(ref)\<close>. The fields of
  a \<^verbatim>\<open>set\<close> on a HomePage are a \<^typ>\<open>homepage\<close> whose missing fields are \<^term>\<open>None\<close>.
\<close>

datatype tx_op =
    TxGet docref
  | TxSetHomepage string homepage bool
  | TxSetByName string string
  | TxDelete docref

text \<open>
  The outcomes the handlers report: the three alerts of the name protocol, the alert of the
  shopping list, a transaction the store refuses, and the silent \<^verbatim>\<open>return\<close> of a handler
  that has nothing to work on.
\<close>

datatype error =
    InvalidName
  | NameTaken
  | NotFound
  | AlreadyOnList
  | ReadAfterWrite
  | Ignored

text \<open>
  A \<^verbatim>\<open>set\<close> with \<^verbatim>\<open>merge\<close> keeps the fields it does not name and creates the document
  when there is none; a \<^verbatim>\<open>set\<close> without it replaces the document.
\<close>

definition mergeHomepage :: "homepage \<Rightarrow> homepage \<Rightarrow> homepage" where
  "mergeHomepage old new =
     \<lparr>createdAt = (case createdAt new of None \<Rightarrow> createdAt old | Some t \<Rightarrow> Some t),
      name = (case name new of None \<Rightarrow> name old | Some n \<Rightarrow> Some n),
      nameKey = (case nameKey new of None \<Rightarrow> nameKey old | Some k \<Rightarrow> Some k)\<rparr>"

fun apply_op :: "firestore \<Rightarrow> tx_op \<Rightarrow> firestore" where
  "apply_op d (TxGet r) = d"
| "apply_op d (TxSetHomepage i new merge) =
     d\<lparr>homepages := (homepages d)(i \<mapsto>
        (case homepages d i of
           None \<Rightarrow> new
         | Some old \<Rightarrow> if merge then mergeHomepage old new else new))\<rparr>"
| "apply_op d (TxSetByName k i) = d\<lparr>homepagesByName := (homepagesByName d)(k \<mapsto> i)\<rparr>"
| "apply_op d (TxDelete (HomepageRef i)) = d\<lparr>homepages := (homepages d)(i := None)\<rparr>"
| "apply_op d (TxDelete (ByNameRef k)) = d\<lparr>homepagesByName := (homepagesByName d)(k := None)\<rparr>"

definition commit :: "tx_op list \<Rightarrow> firestore \<Rightarrow> firestore" where
  "commit ops d = foldl apply_op d ops"

fun isRead :: "tx_op \<Rightarrow> bool" where
  "isRead (TxGet r) = True"
| "isRead _ = False"

text \<open>All reads of a transaction come before all of its writes.\<close>

definition readsBeforeWrites :: "tx_op list \<Rightarrow> bool" where
  "readsBeforeWrites ops = (filter isRead (dropWhile isRead ops) = [])"

text \<open>
  \<^verbatim>\<open>runTransaction(db, body)\<close>. The body reads the documents as they are when the
  transaction runs and queues its writes; when the body returns the writes are committed
  together, in the order given, and when it throws nothing is written. Firestore's client
  refuses a \<^verbatim>\<open>tx.get\<close> that comes after a write of the same transaction (``Firestore
  transactions require all reads to be executed before all writes''): the call throws, the
  transaction fails and nothing is written.
\<close>

definition runTransaction ::
  "(firestore \<Rightarrow> tx_op list \<times> (error + 'a)) \<Rightarrow> firestore \<Rightarrow> (error + 'a) \<times> firestore" where
  "runTransaction body d =
     (case body d of
        (ops, Inl e) \<Rightarrow> (Inl e, d)
      | (ops, Inr v) \<Rightarrow>
          if readsBeforeWrites ops = False then (Inl ReadAfterWrite, d)
          else (Inr v, commit ops d))"

text \<open>
  The calls a handler makes on the store: a single \<^verbatim>\<open>getDoc(ref)\<close>, or a
  \<^verbatim>\<open>runTransaction\<close> with the operations of its body.
\<close>

datatype store_call = GetDoc docref | RunTransaction "tx_op list"

section \<open>Creating and joining a HomePage (component \<^verbatim>\<open>Index\<close>)\<close>

text \<open>
  The body of the transaction of \<^verbatim>\<open>createByName\<close>. \<^verbatim>\<open>newId\<close> is the identifier that
  \<^verbatim>\<open>doc(collection(db, "homepages"))\<close> generates and \<^verbatim>\<open>now\<close> the value the server puts
  for \<^verbatim>\<open>serverTimestamp()\<close>.
  \<^verbatim>\<open>
  const mapSnap = await tx.get(mapRef);
  if (mapSnap.exists()) throw new Error("That name is already taken. ...");
  tx.set(hpRef, { createdAt: serverTimestamp(), name, nameKey: key });
  tx.set(mapRef, { homePageId: hpRef.id }, { merge: true });
  return hpRef.id;
  \<close>
\<close>

definition createByName_tx ::
  "string \<Rightarrow> nat \<Rightarrow> string \<Rightarrow> string \<Rightarrow> firestore \<Rightarrow> tx_op list \<times> (error + string)" where
  "createByName_tx newId now name' key d =
     (case homepagesByName d key of
        Some mapped \<Rightarrow> ([TxGet (ByNameRef key)], Inl NameTaken)
      | None \<Rightarrow>
          ([TxGet (ByNameRef key),
            TxSetHomepage newId
              \<lparr>createdAt = Some now, name = Some name', nameKey = Some key\<rparr> False,
            TxSetByName key newId],
           Inr newId))"

definition createByName ::
  "string \<Rightarrow> nat \<Rightarrow> string \<Rightarrow> app \<Rightarrow> (error + string) \<times> app" where
  "createByName newId now createName a =
     (let name' = trim createName; key = toNameKey name'
      in if name' = [] \<or> key = [] then (Inl InvalidName, a)
         else (case runTransaction (createByName_tx newId now name' key) (db a) of
                 (Inl e, d') \<Rightarrow> (Inl e, a)
               | (Inr i, d') \<Rightarrow> (Inr i, a\<lparr>db := d', savedHomePageId := Some i\<rparr>)))"

text \<open>
  \<^verbatim>\<open>joinByName\<close>, with the calls it makes on the store. It returns before any call when
  the key is empty; otherwise it reads the claim with one \<^verbatim>\<open>getDoc\<close>, outside any
  transaction, and writes to the device only.
  \<^verbatim>\<open>
  const key = toNameKey(joinName);
  if (!key) { Alert.alert("Invalid name", ...); return; }
  const mapSnap = await getDoc(doc(db, "homepagesByName", key));
  if (!mapSnap.exists()) { Alert.alert("Not found", ...); return; }
  const { homePageId } = mapSnap.data() as { homePageId: string };
  await AsyncStorage.setItem(STORAGE_KEY, homePageId);
  \<close>
\<close>

definition joinByName_calls ::
  "string \<Rightarrow> app \<Rightarrow> ((error + string) \<times> app) \<times> store_call list" where
  "joinByName_calls joinName a =
     (let key = toNameKey joinName
      in if key = [] then ((Inl InvalidName, a), [])
         else (case homepagesByName (db a) key of
                 None \<Rightarrow> ((Inl NotFound, a), [GetDoc (ByNameRef key)])
               | Some homePageId \<Rightarrow>
                   ((Inr homePageId, a\<lparr>savedHomePageId := Some homePageId\<rparr>),
                    [GetDoc (ByNameRef key)])))"

text \<open>The outcome and the state alone.\<close>

definition joinByName :: "string \<Rightarrow> app \<Rightarrow> (error + string) \<times> app" where
  "joinByName joinName a = fst (joinByName_calls joinName a)"

section \<open>Renaming a HomePage (component \<^verbatim>\<open>HomeTab\<close>)\<close>

text \<open>
  The body of the transaction of \<^verbatim>\<open>saveRename\<close>. \<^verbatim>\<open>homePageKey\<close> is the key the screen
  last saw in the HomePage document, or \<^verbatim>\<open>null\<close>; an empty string counts as \<^verbatim>\<open>null\<close> in
  the tests \<^verbatim>\<open>homePageKey ? ... : null\<close> and \<^verbatim>\<open>oldKeyRef && homePageKey && ...\<close>.
  \<^verbatim>\<open>
  const newKeySnap = await tx.get(newKeyRef);
  if (newKeySnap.exists()) {
    const mapped = newKeySnap.data() as { homePageId: string };
    if (mapped.homePageId !== homePageId) throw new Error("That name is already taken. ...");
  }
  tx.set(hpRef, { name, nameKey: newKey }, { merge: true });
  tx.set(newKeyRef, { homePageId }, { merge: true });
  if (oldKeyRef && homePageKey && homePageKey !== newKey) {
    const oldKeySnap = await tx.get(oldKeyRef);
    if (oldKeySnap.exists()) {
      const mappedOld = oldKeySnap.data() as { homePageId: string };
      if (mappedOld.homePageId === homePageId) tx.delete(oldKeyRef);
    }
  }
  \<close>
\<close>

definition saveRename_cleanup :: "string \<Rightarrow> string \<Rightarrow> string option \<Rightarrow> firestore \<Rightarrow> tx_op list" where
  "saveRename_cleanup homePageId newKey homePageKey d =
     (case homePageKey of
        None \<Rightarrow> []
      | Some oldKey \<Rightarrow>
          if oldKey \<noteq> [] \<and> oldKey \<noteq> newKey
          then TxGet (ByNameRef oldKey) #
               (case homepagesByName d oldKey of
                  None \<Rightarrow> []
                | Some mappedOld \<Rightarrow>
                    if mappedOld = homePageId then [TxDelete (ByNameRef oldKey)] else [])
          else [])"

definition saveRename_tx ::
  "string \<Rightarrow> string \<Rightarrow> string \<Rightarrow> string option \<Rightarrow> firestore \<Rightarrow> tx_op list \<times> (error + unit)" where
  "saveRename_tx homePageId name' newKey homePageKey d =
     (if (case homepagesByName d newKey of None \<Rightarrow> False | Some mapped \<Rightarrow> mapped \<noteq> homePageId)
      then ([TxGet (ByNameRef newKey)], Inl NameTaken)
      else
        ([TxGet (ByNameRef newKey),
          TxSetHomepage homePageId
            \<lparr>createdAt = None, name = Some name', nameKey = Some newKey\<rparr> True,
          TxSetByName newKey homePageId]
         @ saveRename_cleanup homePageId newKey homePageKey d,
         Inr ()))"

definition saveRename ::
  "string option \<Rightarrow> string \<Rightarrow> string option \<Rightarrow> app \<Rightarrow> (error + unit) \<times> app" where
  "saveRename homePageId renameText homePageKey a =
     (case homePageId of
        None \<Rightarrow> (Inl Ignored, a)
      | Some hid \<Rightarrow>
          if hid = [] then (Inl Ignored, a)
          else
            (let name' = trim renameText; newKey = toNameKey name'
             in if name' = [] \<or> newKey = [] then (Inl InvalidName, a)
                else (case runTransaction (saveRename_tx hid name' newKey homePageKey) (db a) of
                        (Inl e, d') \<Rightarrow> (Inl e, a)
                      | (Inr u, d') \<Rightarrow> (Inr u, a\<lparr>db := d'\<rparr>))))"

section \<open>Adding to the shopping list (component \<^verbatim>\<open>ShoppingTab\<close>)\<close>

text \<open>
  A document of \<^verbatim>\<open>homepages/{id}/shoppingItems\<close>, as the type \<^verbatim>\<open>Item\<close> has it. The
  collections are a function from the HomePage identifier to its documents; \<^verbatim>\<open>addDoc\<close>
  puts a new document under the identifier the store generates.
\<close>

record item =
  item_id :: string
  item_name :: string
  nameLower :: string
  purchased :: bool
  item_createdAt :: "nat option"

text \<open>\<^verbatim>\<open>query(itemsRef, where("nameLower", "==", normalized), limit(1))\<close>\<close>

definition hasNameLower :: "string \<Rightarrow> item \<Rightarrow> bool" where
  "hasNameLower normalized i = (nameLower i = normalized)"

definition dupQuery :: "string \<Rightarrow> item list \<Rightarrow> item list" where
  "dupQuery normalized docs = take 1 (filter (hasNameLower normalized) docs)"

definition addItem ::
  "string \<Rightarrow> nat \<Rightarrow> string \<Rightarrow> string option \<Rightarrow> (string \<Rightarrow> item list)
     \<Rightarrow> (error + unit) \<times> (string \<Rightarrow> item list)" where
  "addItem newId now text homePageId shoppingItems =
     (let name' = trim text
      in case homePageId of
           None \<Rightarrow> (Inl Ignored, shoppingItems)
         | Some hid \<Rightarrow>
             if name' = [] \<or> hid = [] then (Inl Ignored, shoppingItems)
             else
               (let normalized = toLowerCase name';
                    dup = dupQuery normalized (shoppingItems hid)
                in if dup \<noteq> [] then (Inl AlreadyOnList, shoppingItems)
                   else (Inr (),
                         shoppingItems(hid := shoppingItems hid @
                           [\<lparr>item_id = newId, item_name = name', nameLower = normalized,
                             purchased = False, item_createdAt = Some now\<rparr>]))))"

section \<open>Some states and inputs\<close>

text \<open>A store with no documents, on a device that has selected nothing.\<close>

definition emptyApp :: app where
  "emptyApp = \<lparr>db = \<lparr>homepages = Map.empty, homepagesByName = Map.empty\<rparr>,
               savedHomePageId = None\<rparr>"

text \<open>The store after \<^verbatim>\<open>"Magnus Home"\<close> has been created as \<^verbatim>\<open>hp1\<close>.\<close>

definition magnusApp :: app where
  "magnusApp =
     \<lparr>db = \<lparr>homepages =
               [''hp1'' \<mapsto> \<lparr>createdAt = Some 1, name = Some ''Magnus Home'',
                             nameKey = Some ''magnus-home''\<rparr>],
             homepagesByName = [''magnus-home'' \<mapsto> ''hp1'']\<rparr>,
      savedHomePageId = Some ''hp1''\<rparr>"

text \<open>The same store with a second HomePage \<^verbatim>\<open>"Other Home"\<close>, created as \<^verbatim>\<open>hp2\<close>.\<close>

definition twoHomesApp :: app where
  "twoHomesApp =
     \<lparr>db = \<lparr>homepages =
               [''hp1'' \<mapsto> \<lparr>createdAt = Some 1, name = Some ''Magnus Home'',
                             nameKey = Some ''magnus-home''\<rparr>,
                ''hp2'' \<mapsto> \<lparr>createdAt = Some 2, name = Some ''Other Home'',
                             nameKey = Some ''other-home''\<rparr>],
             homepagesByName = [''magnus-home'' \<mapsto> ''hp1'', ''other-home'' \<mapsto> ''hp2'']\<rparr>,
      savedHomePageId = Some ''hp1''\<rparr>"

definition noItems :: "string \<Rightarrow> item list" where
  "noItems = (\<lambda>h. [])"

text \<open>The shopping list of \<^verbatim>\<open>hp1\<close> with the one item \<^verbatim>\<open>"Milk"\<close>.\<close>

definition milkItems :: "string \<Rightarrow> item list" where
  "milkItems =
     noItems(''hp1'' :=
       [\<lparr>item_id = ''i1'', item_name = ''Milk'', nameLower = ''milk'', purchased = True,
         item_createdAt = Some 1\<rparr>])"

text \<open>A name of 41 letters.\<close>

definition name41 :: string where
  "name41 = ''aaaaaaaaaaaaaaaaaaaaaaaaaaaaaaaaaaaaaaaaa''"

section \<open>Properties of the normalizer\<close>

lemma trim_idem: "trim (trim s) = trim s"
proof -
  define t where "t = dropWhile isSpace s"
  define u where "u = rev (dropWhile isSpace (rev t))"
  have u: "u = trim s" by (simp add: u_def t_def trim_def)
  have "dropWhile isSpace u = u"
  proof (cases "t = []")
    case True
    then show ?thesis by (simp add: u_def)
  next
    case False
    then have h: "\<not> isSpace (hd t)" unfolding t_def by (rule hd_dropWhile)
    obtain a as where t: "t = a # as" using False by (cases t) auto
    with h have a: "\<not> isSpace a" by simp
    have "dropWhile isSpace (rev as @ [a]) = dropWhile isSpace (rev as) @ [a]"
      using a by (simp add: dropWhile_append3)
    then have "u = a # rev (dropWhile isSpace (rev as))"
      by (simp add: u_def t)
    with a show ?thesis by simp
  qed
  moreover have "dropWhile isSpace (rev u) = rev u"
  proof (cases "dropWhile isSpace (rev t) = []")
    case True
    then show ?thesis by (simp add: u_def)
  next
    case False
    then have "\<not> isSpace (hd (dropWhile isSpace (rev t)))" by (rule hd_dropWhile)
    with False show ?thesis by (cases "dropWhile isSpace (rev t)") (auto simp: u_def)
  qed
  ultimately have "trim u = u" by (simp add: trim_def)
  with u show ?thesis by simp
qed

lemma toNameKey_trim: "toNameKey (trim s) = toNameKey s"
  by (simp add: toNameKey_def trim_idem)

lemma collapseDashes_Nil_iff: "collapseDashes s = [] \<longleftrightarrow> s = []"
  by (cases s) auto

lemma isDash_hd_collapseDashes:
  "s \<noteq> [] \<Longrightarrow> isDash (hd (collapseDashes s)) = isDash (hd s)"
  by (cases s) (auto simp: isDash_def)

lemma noDoubleDash_Cons:
  "noDoubleDash (a # s) = ((s = [] \<or> (isDash a \<and> isDash (hd s)) = False) \<and> noDoubleDash s)"
  by (cases s) auto

lemma noDoubleDash_collapseDashes: "noDoubleDash (collapseDashes s)"
proof (induction s rule: collapseDashes.induct)
  case 1
  show ?case by simp
next
  case (2 c cs)
  show ?case
  proof (cases "isDash c")
    case True
    let ?r = "dropWhile isDash cs"
    have "collapseDashes ?r = [] \<or> \<not> isDash (hd (collapseDashes ?r))"
    proof (cases "?r = []")
      case True
      then have "collapseDashes ?r = []" by (simp only: collapseDashes.simps)
      then show ?thesis ..
    next
      case False
      then have "\<not> isDash (hd ?r)" by (rule hd_dropWhile)
      moreover have "isDash (hd (collapseDashes ?r)) = isDash (hd ?r)"
        using False by (rule isDash_hd_collapseDashes)
      ultimately show ?thesis by blast
    qed
    with True 2 show ?thesis by (simp add: noDoubleDash_Cons)
  next
    case False
    with 2 show ?thesis by (simp add: noDoubleDash_Cons)
  qed
qed

lemma noDoubleDash_snoc:
  "noDoubleDash (s @ [a]) \<Longrightarrow> s \<noteq> [] \<Longrightarrow> isDash a \<Longrightarrow> \<not> isDash (last s)"
  by (induction s rule: noDoubleDash.induct) (auto split: if_splits)

lemma dropWhile_isDash_head:
  "noDoubleDash s \<Longrightarrow>
   dropWhile isDash s = (case s of [] \<Rightarrow> [] | c # cs \<Rightarrow> if isDash c then cs else s)"
  by (cases s rule: noDoubleDash.cases) auto

lemma dropWhile_isDash_last:
  "noDoubleDash s \<Longrightarrow>
   rev (dropWhile isDash (rev s)) = (if s \<noteq> [] \<and> isDash (last s) then butlast s else s)"
proof (cases s rule: rev_cases)
  case Nil
  then show ?thesis by simp
next
  case (snoc ys y)
  assume nd: "noDoubleDash s"
  show ?thesis
  proof (cases "isDash y")
    case False
    with snoc show ?thesis by simp
  next
    case True
    have "dropWhile isDash (rev ys) = rev ys"
    proof (cases ys rule: rev_cases)
      case Nil
      then show ?thesis by simp
    next
      case (snoc zs z)
      with nd True \<open>s = ys @ [y]\<close> have "\<not> isDash (last ys)"
        using noDoubleDash_snoc [of ys y] by simp
      with snoc show ?thesis by simp
    qed
    with True snoc show ?thesis by simp
  qed
qed

lemma noDoubleDash_tail: "noDoubleDash (c # cs) \<Longrightarrow> noDoubleDash cs"
  by (cases cs) auto

lemma stripEdgeDash_trimDashes:
  assumes "noDoubleDash s"
  shows "stripEdgeDash s = trimDashes s"
proof -
  define t where "t = (case s of [] \<Rightarrow> [] | c # cs \<Rightarrow> if isDash c then cs else s)"
  have "noDoubleDash t"
    using assms by (cases s) (auto simp: t_def dest: noDoubleDash_tail)
  then have "rev (dropWhile isDash (rev t)) =
             (if t \<noteq> [] \<and> isDash (last t) then butlast t else t)"
    by (rule dropWhile_isDash_last)
  moreover have "dropWhile isDash s = t"
    using assms by (simp add: dropWhile_isDash_head t_def)
  ultimately show ?thesis
    by (simp add: stripEdgeDash_def trimDashes_def t_def Let_def)
qed

subsection \<open>What holds of every key, and of keys the cut leaves whole\<close>

text \<open>
  Every key is made of the characters \<^verbatim>\<open>[a-z0-9-]\<close>, has no two hyphens in a row and
  at most 40 code units; a second pass only strips a hyphen at its ends. When the key
  before the cut has at most 40 code units, normalizing is idempotent and a non-empty key
  has the required shape.
\<close>

lemma toNameKey_untruncated: "toNameKey s = take 40 (untruncatedKey s)"
  by (simp add: toNameKey_def untruncatedKey_def)

lemma isKeyChar_not_isSpace: "isKeyChar c \<Longrightarrow> \<not> isSpace c"
  by (auto simp: isKeyChar_def isAlnumLower_def isDash_def isSpace_def)

lemma isKeyChar_toLowerChar: "isKeyChar c \<Longrightarrow> toLowerChar c = c"
  by (auto simp: isKeyChar_def isAlnumLower_def isDash_def toLowerChar_def Let_def)

lemma isDash_not_isAlnumLower: "isDash c \<Longrightarrow> \<not> isAlnumLower c"
  by (auto simp: isAlnumLower_def isDash_def)

lemma set_collapseDashes: "set (collapseDashes s) \<subseteq> set s"
proof (induction s rule: collapseDashes.induct)
  case 1
  show ?case by simp
next
  case (2 c cs)
  show ?case
  proof (cases "isDash c")
    case True
    with 2 have "set (collapseDashes (dropWhile isDash cs)) \<subseteq> set cs"
      using set_dropWhileD by fastforce
    with True show ?thesis by (auto simp: isDash_def)
  next
    case False
    with 2 show ?thesis by auto
  qed
qed

lemma set_stripEdgeDash: "set (stripEdgeDash s) \<subseteq> set s"
  by (cases s) (auto simp: stripEdgeDash_def Let_def dest: in_set_butlastD)

lemma untruncatedKey_chars: "list_all isKeyChar (untruncatedKey s)"
proof -
  have "set (untruncatedKey s) \<subseteq> set (stripInvalid (spacesToDash (toLowerCase (trim s))))"
    unfolding untruncatedKey_def using set_stripEdgeDash set_collapseDashes by blast
  then show ?thesis by (auto simp: list_all_iff stripInvalid_def)
qed

lemma trimDashes_edges:
  "trimDashes s \<noteq> [] \<Longrightarrow> \<not> isDash (hd (trimDashes s)) \<and> \<not> isDash (last (trimDashes s))"
proof -
  assume ne: "trimDashes s \<noteq> []"
  define t where "t = dropWhile isDash s"
  define v where "v = dropWhile isDash (rev t)"
  have tv: "trimDashes s = rev v" by (simp add: trimDashes_def t_def v_def)
  with ne have v: "v \<noteq> []" by simp
  then have "\<not> isDash (hd v)" unfolding v_def by (rule hd_dropWhile)
  with v have l: "\<not> isDash (last (trimDashes s))" by (simp add: tv last_rev)
  from v have t: "t \<noteq> []" by (auto simp: v_def)
  then have ht: "\<not> isDash (hd t)" unfolding t_def by (rule hd_dropWhile)
  obtain a as where tc: "t = a # as" using t by (cases t) auto
  with ht have a: "\<not> isDash a" by simp
  have "v = dropWhile isDash (rev as) @ [a]"
    using a by (simp add: v_def tc dropWhile_append3)
  then have "hd (trimDashes s) = a" by (simp add: tv)
  with a l show ?thesis by simp
qed

lemma untruncatedKey_trimDashes:
  "untruncatedKey s = trimDashes (collapseDashes (stripInvalid (spacesToDash (toLowerCase (trim s)))))"
  by (simp add: untruncatedKey_def stripEdgeDash_trimDashes [OF noDoubleDash_collapseDashes])

lemma untruncatedKey_edges:
  "untruncatedKey s \<noteq> [] \<Longrightarrow>
   \<not> isDash (hd (untruncatedKey s)) \<and> \<not> isDash (last (untruncatedKey s))"
  unfolding untruncatedKey_trimDashes by (rule trimDashes_edges)

lemma noDoubleDash_butlast: "noDoubleDash s \<Longrightarrow> noDoubleDash (butlast s)"
  by (induction s rule: noDoubleDash.induct) (auto split: if_splits)

lemma noDoubleDash_stripEdgeDash: "noDoubleDash s \<Longrightarrow> noDoubleDash (stripEdgeDash s)"
  by (cases s) (auto simp: stripEdgeDash_def Let_def dest: noDoubleDash_tail noDoubleDash_butlast)

lemma noDoubleDash_untruncatedKey: "noDoubleDash (untruncatedKey s)"
  unfolding untruncatedKey_def
  by (rule noDoubleDash_stripEdgeDash) (rule noDoubleDash_collapseDashes)

lemma noDoubleDash_take: "noDoubleDash s \<Longrightarrow> noDoubleDash (take n s)"
proof (induction s arbitrary: n)
  case Nil
  show ?case by simp
next
  case (Cons a s)
  show ?case
  proof (cases n)
    case 0
    then show ?thesis by simp
  next
    case (Suc m)
    have "take m s = [] \<or> hd (take m s) = hd s"
      by (cases m) (simp_all add: hd_take)
    moreover have "take m s \<noteq> [] \<Longrightarrow> s \<noteq> []" by auto
    ultimately show ?thesis
      using Cons Suc by (auto simp: noDoubleDash_Cons)
  qed
qed

text \<open>A string that is already made of key characters passes the first steps unchanged.\<close>

lemma spacesToDash_id: "list_all isKeyChar s \<Longrightarrow> spacesToDash s = s"
  by (induction s) (auto dest: isKeyChar_not_isSpace)

lemma collapseDashes_id: "noDoubleDash s \<Longrightarrow> collapseDashes s = s"
proof (induction s rule: noDoubleDash.induct)
  case (1 a b cs)
  then show ?case by (auto simp: isDash_def)
qed (auto simp: isDash_def)

lemma dropWhile_isSpace_id: "list_all isKeyChar s \<Longrightarrow> dropWhile isSpace s = s"
  by (cases s) (auto dest: isKeyChar_not_isSpace)

lemma trim_id: "list_all isKeyChar s \<Longrightarrow> trim s = s"
proof -
  assume k: "list_all isKeyChar s"
  then have "list_all isKeyChar (rev s)" by (simp add: list_all_iff)
  then have "dropWhile isSpace (rev s) = rev s" by (rule dropWhile_isSpace_id)
  with k show ?thesis by (simp add: trim_def dropWhile_isSpace_id)
qed

lemma toNameKey_on_key:
  assumes "list_all isKeyChar k" and "noDoubleDash k" and "length k \<le> 40"
  shows "toNameKey k = stripEdgeDash k"
proof -
  have "toLowerCase k = k"
    using assms(1) by (simp add: toLowerCase_def list_all_iff map_idI isKeyChar_toLowerChar)
  moreover have "stripInvalid k = k" using assms(1) by (simp add: stripInvalid_def list_all_iff)
  moreover have "length (stripEdgeDash k) \<le> 40"
    using assms(3) by (cases k) (auto simp: stripEdgeDash_def Let_def)
  ultimately show ?thesis
    using assms by (simp add: toNameKey_def trim_id spacesToDash_id collapseDashes_id)
qed

lemma stripEdgeDash_id:
  "s = [] \<or> (\<not> isDash (hd s) \<and> \<not> isDash (last s)) \<Longrightarrow> stripEdgeDash s = s"
  by (cases s) (auto simp: stripEdgeDash_def Let_def)

lemma toNameKey_chars: "list_all isKeyChar (toNameKey s)"
  using untruncatedKey_chars [of s]
  by (auto simp: toNameKey_untruncated list_all_iff dest: in_set_takeD)

lemma toNameKey_twice: "toNameKey (toNameKey s) = stripEdgeDash (toNameKey s)"
proof (rule toNameKey_on_key)
  show "list_all isKeyChar (toNameKey s)" by (rule toNameKey_chars)
  show "noDoubleDash (toNameKey s)"
    unfolding toNameKey_untruncated
    by (rule noDoubleDash_take) (rule noDoubleDash_untruncatedKey)
  show "length (toNameKey s) \<le> 40" by (simp add: toNameKey_def)
qed

lemma toNameKey_short_idempotent:
  assumes "length (untruncatedKey s) \<le> 40"
  shows "toNameKey (toNameKey s) = toNameKey s"
proof -
  have k: "toNameKey s = untruncatedKey s" using assms by (simp add: toNameKey_untruncated)
  have e: "stripEdgeDash (untruncatedKey s) = untruncatedKey s"
    using untruncatedKey_edges [of s] by (intro stripEdgeDash_id) blast
  have "toNameKey (toNameKey s) = stripEdgeDash (toNameKey s)" by (rule toNameKey_twice)
  also have "\<dots> = stripEdgeDash (untruncatedKey s)" by (simp only: k)
  also have "\<dots> = toNameKey s" by (simp only: e k)
  finally show ?thesis .
qed

lemma toNameKey_short_shape:
  assumes "length (untruncatedKey s) \<le> 40" and "toNameKey s \<noteq> []"
  shows "matchesKeyPattern (toNameKey s)"
proof -
  have k: "toNameKey s = untruncatedKey s" using assms by (simp add: toNameKey_untruncated)
  obtain c cs where kc: "toNameKey s = c # cs" using assms(2) by (cases "toNameKey s") auto
  have ch: "list_all isKeyChar (c # cs)" using toNameKey_chars [of s] by (simp add: kc)
  have ed: "\<not> isDash c \<and> \<not> isDash (last (c # cs))"
    using untruncatedKey_edges [of s] assms(2) by (simp add: k [symmetric] kc)
  have len: "length cs \<le> 39" using assms(1) by (simp add: k [symmetric] kc)
  have c: "isAlnumLower c" using ch ed by (simp add: isKeyChar_def)
  have "cs \<noteq> [] \<Longrightarrow> isAlnumLower (last cs)"
    using ch ed by (auto simp: isKeyChar_def list_all_iff)
  moreover have "list_all isKeyChar (butlast cs)"
    using ch by (auto simp: list_all_iff dest: in_set_butlastD)
  ultimately show ?thesis using c len by (auto simp: matchesKeyPattern_def kc)
qed

subsection \<open>The claims about the normalizer\<close>

text \<open>
  Claim C7. The normalizer of the source computes what the specification's list of steps
  computes, on every string; it takes \<^verbatim>\<open>"  Magnus Home!! "\<close> to \<^verbatim>\<open>"magnus-home"\<close> and
  \<^verbatim>\<open>"---"\<close> to the empty string.
\<close>

theorem toNameKey_refines_spec:
  "toNameKey s = normalize_spec s \<and>
   toNameKey ''  Magnus Home!! '' = ''magnus-home'' \<and>
   toNameKey ''---'' = ''''"
proof -
  have "toNameKey s = normalize_spec s"
    by (simp add: toNameKey_def normalize_spec_def
        stripEdgeDash_trimDashes [OF noDoubleDash_collapseDashes])
  moreover have "toNameKey ''  Magnus Home!! '' = ''magnus-home''" by code_simp
  moreover have "toNameKey ''---'' = ''''" by code_simp
  ultimately show ?thesis by simp
qed

text \<open>
  Claim C5. The claim is that normalizing twice gives what normalizing once gives. The
  source truncates after it has removed the hyphens at the ends, so the cut can leave a
  hyphen at the end, which a second pass removes: on a name of 39 letters, a space and a
  letter the first pass ends in a hyphen and the second pass gives the 39 letters. The
  \<^verbatim>\<open>HomeTab\<close> screen shows the key under ``Share & join by name''; joining by the key
  shown for a HomePage created under this name finds nothing.
\<close>

theorem toNameKey_not_idempotent:
  "toNameKey longName = ''aaaaaaaaaaaaaaaaaaaaaaaaaaaaaaaaaaaaaaa-'' \<and>
   toNameKey (toNameKey longName) = ''aaaaaaaaaaaaaaaaaaaaaaaaaaaaaaaaaaaaaaa'' \<and>
   toNameKey (toNameKey longName) \<noteq> toNameKey longName \<and>
   fst (joinByName (toNameKey longName)
          (snd (createByName ''hp1'' 1 longName emptyApp))) = Inl NotFound"
  by code_simp

text \<open>
  Claim C6. The claim is that a key is empty or has the shape
  \<^verbatim>\<open>^[a-z0-9]([a-z0-9-]{0,38}[a-z0-9])?$\<close>. On the same name the key of the source is
  not empty, is 40 code units long and ends in a hyphen, so it does not have the shape.
\<close>

theorem toNameKey_trailing_dash:
  "toNameKey longName \<noteq> [] \<and>
   length (toNameKey longName) = 40 \<and>
   last (toNameKey longName) = CHR ''-'' \<and>
   matchesKeyPattern (toNameKey longName) = False"
  by code_simp

section \<open>Properties of the name protocol\<close>

lemma trim_Nil_toNameKey: "trim s = [] \<Longrightarrow> toNameKey s = []"
  by (simp add: toNameKey_def toLowerCase_def stripInvalid_def stripEdgeDash_def)

lemma runTransaction_createByName_tx:
  "runTransaction (createByName_tx newId now n key) d =
     (case homepagesByName d key of
        Some mapped \<Rightarrow> (Inl NameTaken, d)
      | None \<Rightarrow>
          (Inr newId,
           d\<lparr>homepages := (homepages d)(newId \<mapsto>
                \<lparr>createdAt = Some now, name = Some n, nameKey = Some key\<rparr>),
             homepagesByName := (homepagesByName d)(key \<mapsto> newId)\<rparr>))"
  by (simp add: runTransaction_def createByName_tx_def readsBeforeWrites_def commit_def
      split: option.split)

lemma createByName_eq:
  "createByName newId now raw a =
     (if toNameKey raw = [] then (Inl InvalidName, a)
      else case homepagesByName (db a) (toNameKey raw) of
             Some mapped \<Rightarrow> (Inl NameTaken, a)
           | None \<Rightarrow>
               (Inr newId,
                a\<lparr>db := (db a)\<lparr>homepages := (homepages (db a))(newId \<mapsto>
                       \<lparr>createdAt = Some now, name = Some (trim raw),
                        nameKey = Some (toNameKey raw)\<rparr>),
                     homepagesByName := (homepagesByName (db a))(toNameKey raw \<mapsto> newId)\<rparr>,
                  savedHomePageId := Some newId\<rparr>))"
  using trim_Nil_toNameKey [of raw]
  by (auto simp: createByName_def Let_def toNameKey_trim runTransaction_createByName_tx
      split: option.split)

lemma key_Magnus_Home: "toNameKey ''Magnus Home'' = ''magnus-home''" by code_simp
lemma key_magnus_home: "toNameKey ''magnus home'' = ''magnus-home''" by code_simp
lemma key_MAGNUS_home: "toNameKey ''  MAGNUS   home!! '' = ''magnus-home''" by code_simp
lemma key_Other_Home: "toNameKey ''Other Home'' = ''other-home''" by code_simp
lemma key_New_Name: "toNameKey ''New Name'' = ''new-name''" by code_simp
lemma key_nonexistent: "toNameKey ''nonexistent-key'' = ''nonexistent-key''" by code_simp
lemma key_dashes: "toNameKey ''---'' = []" by code_simp

text \<open>
  Claim C1. \<^verbatim>\<open>createByName\<close> answers \<^verbatim>\<open>InvalidName\<close> when the key of the name is empty
  and writes nothing; otherwise it answers \<^verbatim>\<open>NameTaken\<close> when the key has a claim and
  writes nothing; otherwise it answers the identifier the store generated, and the store
  holds the HomePage document (trimmed name, key, creation time) under that identifier and
  the claim from the key to it. When the key is not empty and has no claim the first of two
  calls succeeds, and a second call whose name has the same key answers \<^verbatim>\<open>NameTaken\<close> and
  writes nothing.
\<close>

theorem createByName_claim:
  "createByName newId now raw a =
     (if toNameKey raw = [] then (Inl InvalidName, a)
      else if homepagesByName (db a) (toNameKey raw) \<noteq> None then (Inl NameTaken, a)
      else (Inr newId,
            a\<lparr>db := (db a)\<lparr>homepages := (homepages (db a))(newId \<mapsto>
                   \<lparr>createdAt = Some now, name = Some (trim raw),
                    nameKey = Some (toNameKey raw)\<rparr>),
                 homepagesByName := (homepagesByName (db a))(toNameKey raw \<mapsto> newId)\<rparr>,
              savedHomePageId := Some newId\<rparr>)) \<and>
   (toNameKey raw \<noteq> [] \<and> homepagesByName (db a) (toNameKey raw) = None \<longrightarrow>
      fst (createByName newId now raw a) = Inr newId) \<and>
   (toNameKey raw \<noteq> [] \<and> toNameKey raw2 = toNameKey raw \<longrightarrow>
      createByName newId2 now2 raw2 (snd (createByName newId now raw a)) =
        (Inl NameTaken, snd (createByName newId now raw a)))"
  by (auto simp: createByName_eq split: option.split)

theorem createByName_claim_witness:
  "toNameKey ''Magnus Home'' \<noteq> [] \<and>
   homepagesByName (db emptyApp) (toNameKey ''Magnus Home'') = None \<and>
   toNameKey ''magnus home'' = toNameKey ''Magnus Home'' \<and>
   fst (createByName ''hp1'' 1 ''Magnus Home'' emptyApp) = Inr ''hp1'' \<and>
   createByName ''hp2'' 2 ''magnus home''
     (snd (createByName ''hp1'' 1 ''Magnus Home'' emptyApp)) =
     (Inl NameTaken, snd (createByName ''hp1'' 1 ''Magnus Home'' emptyApp))"
proof -
  have h1: "toNameKey ''Magnus Home'' \<noteq> []"
    by (simp add: key_Magnus_Home)
  have h2: "homepagesByName (db emptyApp) (toNameKey ''Magnus Home'') = None"
    by (simp add: emptyApp_def)
  have h3: "toNameKey ''magnus home'' = toNameKey ''Magnus Home''"
    by (simp add: key_Magnus_Home key_magnus_home)
  note c = createByName_claim [of "''hp1''" 1 "''Magnus Home''" emptyApp
      "''magnus home''" "''hp2''" 2]
  from c h1 h2 h3 show ?thesis by blast
qed

subsection \<open>Joining\<close>

lemma joinByName_calls_invalid:
  "toNameKey raw = [] \<Longrightarrow> joinByName_calls raw a = ((Inl InvalidName, a), [])"
  by (simp add: joinByName_calls_def)

lemma joinByName_calls_not_found:
  "toNameKey raw \<noteq> [] \<Longrightarrow> homepagesByName (db a) (toNameKey raw) = None \<Longrightarrow>
   joinByName_calls raw a = ((Inl NotFound, a), [GetDoc (ByNameRef (toNameKey raw))])"
  by (simp add: joinByName_calls_def)

lemma joinByName_calls_found:
  "toNameKey raw \<noteq> [] \<Longrightarrow> homepagesByName (db a) (toNameKey raw) = Some g \<Longrightarrow>
   joinByName_calls raw a =
     ((Inr g, a\<lparr>savedHomePageId := Some g\<rparr>), [GetDoc (ByNameRef (toNameKey raw))])"
  by (simp add: joinByName_calls_def)

lemma joinByName_db: "db (snd (joinByName raw a)) = db a"
  by (simp add: joinByName_def joinByName_calls_def Let_def split: option.split)

lemma joinByName_after_createByName:
  assumes "fst (createByName newId now raw0 a) = Inr g" and "toNameKey raw = toNameKey raw0"
  shows "fst (joinByName raw (snd (createByName newId now raw0 a))) = Inr g"
proof -
  from assms(1) have k: "toNameKey raw0 \<noteq> []" and f: "homepagesByName (db a) (toNameKey raw0) = None"
    and g: "g = newId"
    by (auto simp: createByName_eq split: if_splits option.splits)
  have "homepagesByName (db (snd (createByName newId now raw0 a))) (toNameKey raw0) = Some newId"
    using k f by (simp add: createByName_eq)
  with k g assms(2) show ?thesis
    by (simp add: joinByName_def joinByName_calls_found)
qed

text \<open>
  Claim C4. \<^verbatim>\<open>joinByName\<close> answers \<^verbatim>\<open>InvalidName\<close> when the key of the name is empty,
  without a call on the store. Otherwise its only call on the store is one \<^verbatim>\<open>getDoc\<close> of
  the claim of the key, no transaction: it answers \<^verbatim>\<open>NotFound\<close> when the key has no claim,
  and otherwise the identifier in the claim, which it saves on the device. Both collections
  are left as they are. A name whose key is that of a HomePage just created joins that
  HomePage. In the store that holds \<^verbatim>\<open>"Magnus Home"\<close>, joining by
  \<^verbatim>\<open>"  MAGNUS   home!! "\<close> gives its identifier, joining by \<^verbatim>\<open>"nonexistent-key"\<close> answers
  \<^verbatim>\<open>NotFound\<close> after one read, and joining by \<^verbatim>\<open>"---"\<close> answers \<^verbatim>\<open>InvalidName\<close>.
\<close>

theorem joinByName_claim:
  "(toNameKey raw = [] \<longrightarrow> joinByName_calls raw a = ((Inl InvalidName, a), [])) \<and>
   (toNameKey raw \<noteq> [] \<and> homepagesByName (db a) (toNameKey raw) = None \<longrightarrow>
      joinByName_calls raw a = ((Inl NotFound, a), [GetDoc (ByNameRef (toNameKey raw))])) \<and>
   (toNameKey raw \<noteq> [] \<and> homepagesByName (db a) (toNameKey raw) = Some g \<longrightarrow>
      joinByName_calls raw a =
        ((Inr g, a\<lparr>savedHomePageId := Some g\<rparr>), [GetDoc (ByNameRef (toNameKey raw))])) \<and>
   joinByName raw a = fst (joinByName_calls raw a) \<and>
   db (snd (joinByName raw a)) = db a \<and>
   (fst (createByName newId now raw0 a) = Inr g \<and> toNameKey raw = toNameKey raw0 \<longrightarrow>
      fst (joinByName raw (snd (createByName newId now raw0 a))) = Inr g) \<and>
   joinByName_calls ''  MAGNUS   home!! '' magnusApp =
     ((Inr ''hp1'', magnusApp), [GetDoc (ByNameRef ''magnus-home'')]) \<and>
   joinByName_calls ''nonexistent-key'' magnusApp =
     ((Inl NotFound, magnusApp), [GetDoc (ByNameRef ''nonexistent-key'')]) \<and>
   joinByName_calls ''---'' magnusApp = ((Inl InvalidName, magnusApp), [])"
proof -
  have i1: "joinByName_calls ''  MAGNUS   home!! '' magnusApp =
     ((Inr ''hp1'', magnusApp), [GetDoc (ByNameRef ''magnus-home'')])"
    using joinByName_calls_found [of "''  MAGNUS   home!! ''" magnusApp "''hp1''"]
    by (simp add: key_MAGNUS_home magnusApp_def)
  have i2: "joinByName_calls ''nonexistent-key'' magnusApp =
     ((Inl NotFound, magnusApp), [GetDoc (ByNameRef ''nonexistent-key'')])"
    using joinByName_calls_not_found [of "''nonexistent-key''" magnusApp]
    by (simp add: key_nonexistent magnusApp_def)
  have i3: "joinByName_calls ''---'' magnusApp = ((Inl InvalidName, magnusApp), [])"
    using joinByName_calls_invalid [of "''---''" magnusApp] by (simp add: key_dashes)
  show ?thesis
    using i1 i2 i3 joinByName_calls_invalid [of raw a] joinByName_calls_not_found [of raw a]
      joinByName_calls_found [of raw a g] joinByName_db [of raw a]
      joinByName_after_createByName [of newId now raw0 a g raw]
    by (simp add: joinByName_def)
qed

theorem joinByName_claim_witness:
  "toNameKey ''---'' = [] \<and>
   joinByName_calls ''---'' twoHomesApp = ((Inl InvalidName, twoHomesApp), []) \<and>
   toNameKey ''nonexistent-key'' \<noteq> [] \<and>
   homepagesByName (db twoHomesApp) (toNameKey ''nonexistent-key'') = None \<and>
   joinByName_calls ''nonexistent-key'' twoHomesApp =
     ((Inl NotFound, twoHomesApp), [GetDoc (ByNameRef (toNameKey ''nonexistent-key''))]) \<and>
   toNameKey '' other HOME '' \<noteq> [] \<and>
   homepagesByName (db twoHomesApp) (toNameKey '' other HOME '') = Some ''hp2'' \<and>
   joinByName_calls '' other HOME '' twoHomesApp =
     ((Inr ''hp2'', twoHomesApp\<lparr>savedHomePageId := Some ''hp2''\<rparr>),
      [GetDoc (ByNameRef (toNameKey '' other HOME ''))]) \<and>
   fst (createByName ''hp3'' 3 ''Third Home'' twoHomesApp) = Inr ''hp3'' \<and>
   toNameKey ''third-home'' = toNameKey ''Third Home'' \<and>
   fst (joinByName ''third-home'' (snd (createByName ''hp3'' 3 ''Third Home'' twoHomesApp))) =
     Inr ''hp3''"
proof -
  have k: "toNameKey '' other HOME '' = ''other-home''" by code_simp
  have k3: "toNameKey ''Third Home'' = ''third-home''" by code_simp
  have k3': "toNameKey ''third-home'' = ''third-home''" by code_simp
  have h1: "toNameKey ''---'' = []" by (rule key_dashes)
  have h2: "toNameKey ''nonexistent-key'' \<noteq> []" by (simp add: key_nonexistent)
  have h3: "homepagesByName (db twoHomesApp) (toNameKey ''nonexistent-key'') = None"
    by (simp add: key_nonexistent twoHomesApp_def)
  have h4: "toNameKey '' other HOME '' \<noteq> []" by (simp add: k)
  have h5: "homepagesByName (db twoHomesApp) (toNameKey '' other HOME '') = Some ''hp2''"
    by (simp add: k twoHomesApp_def)
  have h6: "fst (createByName ''hp3'' 3 ''Third Home'' twoHomesApp) = Inr ''hp3''"
    by (simp add: createByName_eq k3 twoHomesApp_def)
  have h7: "toNameKey ''third-home'' = toNameKey ''Third Home''" by (simp add: k3 k3')
  note c1 = joinByName_claim [of "''---''" twoHomesApp]
  note c2 = joinByName_claim [of "''nonexistent-key''" twoHomesApp]
  note c3 = joinByName_claim [of "'' other HOME ''" twoHomesApp "''hp2''"]
  note c4 = joinByName_claim [of "''third-home''" twoHomesApp "''hp3''" "''hp3''" 3 "''Third Home''"]
  from c1 h1 have g1: "joinByName_calls ''---'' twoHomesApp = ((Inl InvalidName, twoHomesApp), [])"
    by blast
  from c2 h2 h3 have g2: "joinByName_calls ''nonexistent-key'' twoHomesApp =
     ((Inl NotFound, twoHomesApp), [GetDoc (ByNameRef (toNameKey ''nonexistent-key''))])"
    by blast
  from c3 h4 h5 have g3: "joinByName_calls '' other HOME '' twoHomesApp =
     ((Inr ''hp2'', twoHomesApp\<lparr>savedHomePageId := Some ''hp2''\<rparr>),
      [GetDoc (ByNameRef (toNameKey '' other HOME ''))])"
    by blast
  from c4 h6 h7 have g4:
    "fst (joinByName ''third-home'' (snd (createByName ''hp3'' 3 ''Third Home'' twoHomesApp))) =
       Inr ''hp3''"
    by blast
  from h1 h2 h3 h4 h5 h6 h7 g1 g2 g3 g4 show ?thesis by blast
qed

subsection \<open>Renaming\<close>

lemma saveRename_tx_taken:
  "homepagesByName d newKey = Some other \<Longrightarrow> other \<noteq> hid \<Longrightarrow>
   saveRename_tx hid n newKey hk d = ([TxGet (ByNameRef newKey)], Inl NameTaken)"
  by (simp add: saveRename_tx_def)

text \<open>
  Claim C3. When the key of the new name is claimed by another HomePage, \<^verbatim>\<open>saveRename\<close>
  answers \<^verbatim>\<open>NameTaken\<close> and the documents of both collections are what they were.
\<close>

theorem saveRename_name_taken:
  assumes "hid \<noteq> []" and "toNameKey raw \<noteq> []"
    and "homepagesByName (db a) (toNameKey raw) = Some other" and "other \<noteq> hid"
  shows "saveRename (Some hid) raw homePageKey a = (Inl NameTaken, a)"
  using assms trim_Nil_toNameKey [of raw]
  by (auto simp: saveRename_def Let_def toNameKey_trim runTransaction_def saveRename_tx_taken)

theorem saveRename_name_taken_witness:
  "''hp1'' \<noteq> [] \<and> toNameKey ''Other Home'' \<noteq> [] \<and>
   homepagesByName (db twoHomesApp) (toNameKey ''Other Home'') = Some ''hp2'' \<and>
   ''hp2'' \<noteq> ''hp1'' \<and>
   saveRename (Some ''hp1'') ''Other Home'' (Some ''magnus-home'') twoHomesApp =
     (Inl NameTaken, twoHomesApp)"
  using saveRename_name_taken [of "''hp1''" "''Other Home''" twoHomesApp "''hp2''"
      "Some ''magnus-home''"]
  by (simp add: key_Other_Home twoHomesApp_def)

lemma readsBeforeWrites_saveRename_tx:
  "snd (saveRename_tx hid n newKey hk d) = Inr u \<Longrightarrow>
   readsBeforeWrites (fst (saveRename_tx hid n newKey hk d)) =
     (hk = None \<or> hk = Some [] \<or> hk = Some newKey)"
  by (auto simp: saveRename_tx_def saveRename_cleanup_def readsBeforeWrites_def
      split: option.splits if_splits)

lemma saveRename_tx_ok:
  "homepagesByName d newKey = None \<or> homepagesByName d newKey = Some hid \<Longrightarrow>
   snd (saveRename_tx hid n newKey hk d) = Inr ()"
  by (auto simp: saveRename_tx_def)

text \<open>
  A rename to a key that is free or the HomePage's own, from a cached key that is another
  key: the body reads the old claim after its writes, the store refuses the transaction,
  and nothing changes.
\<close>

lemma saveRename_rejected:
  assumes "hid \<noteq> []" and "toNameKey raw \<noteq> []"
    and "homepagesByName (db a) (toNameKey raw) = None \<or>
         homepagesByName (db a) (toNameKey raw) = Some hid"
    and "oldKey \<noteq> []" and "oldKey \<noteq> toNameKey raw"
  shows "saveRename (Some hid) raw (Some oldKey) a = (Inl ReadAfterWrite, a)"
proof -
  let ?b = "saveRename_tx hid (trim raw) (toNameKey raw) (Some oldKey) (db a)"
  have ok: "snd ?b = Inr ()" using assms(3) by (rule saveRename_tx_ok)
  have "readsBeforeWrites (fst ?b) = False"
    using assms(4,5) readsBeforeWrites_saveRename_tx [OF ok] by auto
  then have "runTransaction (saveRename_tx hid (trim raw) (toNameKey raw) (Some oldKey)) (db a) =
             (Inl ReadAfterWrite, db a)"
    using ok by (cases ?b) (auto simp: runTransaction_def)
  moreover have "trim raw \<noteq> []" using assms(2) trim_Nil_toNameKey by blast
  ultimately show ?thesis
    using assms(1,2) by (simp add: saveRename_def Let_def toNameKey_trim)
qed

text \<open>
  Claim C2. The claim is that a rename to an unclaimed key updates the name and the key of
  the HomePage, moves the claim, and makes the new name join the HomePage and the old name
  answer \<^verbatim>\<open>NotFound\<close>. Renaming \<^verbatim>\<open>hp1\<close> from \<^verbatim>\<open>"Magnus Home"\<close> to \<^verbatim>\<open>"New Name"\<close>, whose
  key is unclaimed, the body reads the old claim after its two writes, so the transaction
  fails: the screen reports the failure, the HomePage keeps its name and key, the new key
  stays unclaimed and the old claim stays. Joining by the new name answers \<^verbatim>\<open>NotFound\<close>
  and joining by the old name gives the HomePage.
\<close>

theorem saveRename_key_change_fails:
  "toNameKey ''New Name'' = ''new-name'' \<and>
   homepagesByName (db magnusApp) ''new-name'' = None \<and>
   saveRename (Some ''hp1'') ''New Name'' (Some ''magnus-home'') magnusApp =
     (Inl ReadAfterWrite, magnusApp) \<and>
   Option.bind (homepages (db (snd (saveRename (Some ''hp1'') ''New Name''
     (Some ''magnus-home'') magnusApp))) ''hp1'') name = Some ''Magnus Home'' \<and>
   Option.bind (homepages (db (snd (saveRename (Some ''hp1'') ''New Name''
     (Some ''magnus-home'') magnusApp))) ''hp1'') nameKey = Some ''magnus-home'' \<and>
   fst (joinByName ''New Name''
          (snd (saveRename (Some ''hp1'') ''New Name'' (Some ''magnus-home'') magnusApp))) =
     Inl NotFound \<and>
   fst (joinByName ''Magnus Home''
          (snd (saveRename (Some ''hp1'') ''New Name'' (Some ''magnus-home'') magnusApp))) =
     Inr ''hp1''"
proof -
  have r: "saveRename (Some ''hp1'') ''New Name'' (Some ''magnus-home'') magnusApp =
     (Inl ReadAfterWrite, magnusApp)"
    by (rule saveRename_rejected) (simp_all add: key_New_Name magnusApp_def)
  have j1: "fst (joinByName ''New Name'' magnusApp) = Inl NotFound"
    using joinByName_calls_not_found [of "''New Name''" magnusApp]
    by (simp add: joinByName_def key_New_Name magnusApp_def)
  have j2: "fst (joinByName ''Magnus Home'' magnusApp) = Inr ''hp1''"
    using joinByName_calls_found [of "''Magnus Home''" magnusApp "''hp1''"]
    by (simp add: joinByName_def key_Magnus_Home magnusApp_def)
  have n: "Option.bind (homepages (db magnusApp) ''hp1'') name = Some ''Magnus Home''"
    and k: "Option.bind (homepages (db magnusApp) ''hp1'') nameKey = Some ''magnus-home''"
    and f: "homepagesByName (db magnusApp) ''new-name'' = None"
    by (simp_all add: magnusApp_def)
  from r j1 j2 n k f key_New_Name show ?thesis by simp
qed

text \<open>
  Claim C8. The claim is that no transaction body reads after it has written. The body of
  \<^verbatim>\<open>saveRename\<close> does, whenever the screen's previous key is not the new key: renaming
  \<^verbatim>\<open>hp1\<close> from \<^verbatim>\<open>"Magnus Home"\<close> to \<^verbatim>\<open>"New Name"\<close> it reads the new claim, writes the
  HomePage and the new claim, and then reads the old claim. The store refuses this
  transaction, and nothing is renamed.
\<close>

theorem saveRename_reads_after_writes:
  "fst (saveRename_tx ''hp1'' ''New Name'' ''new-name'' (Some ''magnus-home'') (db magnusApp)) =
     [TxGet (ByNameRef ''new-name''),
      TxSetHomepage ''hp1''
        \<lparr>createdAt = None, name = Some ''New Name'', nameKey = Some ''new-name''\<rparr> True,
      TxSetByName ''new-name'' ''hp1'',
      TxGet (ByNameRef ''magnus-home''),
      TxDelete (ByNameRef ''magnus-home'')] \<and>
   readsBeforeWrites
     (fst (saveRename_tx ''hp1'' ''New Name'' ''new-name'' (Some ''magnus-home'') (db magnusApp)))
     = False \<and>
   saveRename (Some ''hp1'') ''New Name'' (Some ''magnus-home'') magnusApp =
     (Inl ReadAfterWrite, magnusApp)"
proof -
  have "saveRename (Some ''hp1'') ''New Name'' (Some ''magnus-home'') magnusApp =
     (Inl ReadAfterWrite, magnusApp)"
    by (rule saveRename_rejected) (simp_all add: key_New_Name magnusApp_def)
  moreover have "fst (saveRename_tx ''hp1'' ''New Name'' ''new-name'' (Some ''magnus-home'')
      (db magnusApp)) =
     [TxGet (ByNameRef ''new-name''),
      TxSetHomepage ''hp1''
        \<lparr>createdAt = None, name = Some ''New Name'', nameKey = Some ''new-name''\<rparr> True,
      TxSetByName ''new-name'' ''hp1'',
      TxGet (ByNameRef ''magnus-home''),
      TxDelete (ByNameRef ''magnus-home'')]"
    by (simp add: saveRename_tx_def saveRename_cleanup_def magnusApp_def)
  ultimately show ?thesis by (simp add: readsBeforeWrites_def)
qed

text \<open>The body of \<^verbatim>\<open>createByName\<close> reads before it writes, on every input.\<close>

lemma createByName_tx_reads_first:
  "readsBeforeWrites (fst (createByName_tx newId now n key d))"
  by (simp add: createByName_tx_def readsBeforeWrites_def split: option.split)

text \<open>
  Claim C9. The claim is that a stored name has at most 40 characters after trimming.
  \<^verbatim>\<open>createByName\<close> truncates the key and not the name, and its text input has no
  \<^verbatim>\<open>maxLength\<close> (the one of the rename screen has \<^verbatim>\<open>maxLength={40}\<close>): a name of 41
  letters is stored as it is.
\<close>

theorem createByName_long_name:
  "fst (createByName ''hp1'' 1 name41 emptyApp) = Inr ''hp1'' \<and>
   Option.bind (homepages (db (snd (createByName ''hp1'' 1 name41 emptyApp))) ''hp1'')
     name = Some name41 \<and>
   length (trim name41) = 41"
  by code_simp

section \<open>Properties of the shopping list\<close>

lemma dupQuery_Nil_iff:
  "dupQuery n docs = [] \<longleftrightarrow> (\<forall>i\<in>set docs. nameLower i \<noteq> n)"
  by (auto simp: dupQuery_def hasNameLower_def filter_empty_conv)

lemma addItem_ignored:
  "trim raw = [] \<or> homePageId = None \<or> homePageId = Some [] \<Longrightarrow>
   addItem newId now raw homePageId shoppingItems = (Inl Ignored, shoppingItems)"
  by (auto simp: addItem_def Let_def split: option.split)

text \<open>
  Claim C10, as amended. With a blank name, or with no HomePage selected, \<^verbatim>\<open>addItem\<close>
  returns at once and the lists are what they were. With a name that is not blank and a
  selected HomePage: when an item of the list has the lower-cased trimmed name as its
  \<^verbatim>\<open>nameLower\<close>, \<^verbatim>\<open>addItem\<close> reports that the item is already on the list and the lists
  are what they were; when no item has, it adds exactly one item to the list of the
  HomePage, not purchased, whose \<^verbatim>\<open>nameLower\<close> is its name in lower case.
\<close>

theorem addItem_claim:
  "(trim raw = [] \<or> homePageId = None \<or> homePageId = Some [] \<longrightarrow>
      addItem newId now raw homePageId shoppingItems = (Inl Ignored, shoppingItems)) \<and>
   (trim raw \<noteq> [] \<and> hid \<noteq> [] \<and>
    (\<exists>i\<in>set (shoppingItems hid). nameLower i = toLowerCase (trim raw)) \<longrightarrow>
      addItem newId now raw (Some hid) shoppingItems = (Inl AlreadyOnList, shoppingItems)) \<and>
   (trim raw \<noteq> [] \<and> hid \<noteq> [] \<and>
    (\<forall>i\<in>set (shoppingItems hid). nameLower i \<noteq> toLowerCase (trim raw)) \<longrightarrow>
      addItem newId now raw (Some hid) shoppingItems =
        (Inr (),
         shoppingItems(hid := shoppingItems hid @
           [\<lparr>item_id = newId, item_name = trim raw, nameLower = toLowerCase (trim raw),
             purchased = False, item_createdAt = Some now\<rparr>])))"
  using addItem_ignored [of raw homePageId newId now shoppingItems]
  by (auto simp: addItem_def Let_def dupQuery_Nil_iff)

lemma trim_MILK: "trim '' MILK '' = ''MILK''" by code_simp
lemma lower_MILK: "toLowerCase ''MILK'' = ''milk''" by code_simp
lemma trim_Bread: "trim ''Bread'' = ''Bread''" by code_simp
lemma lower_Bread: "toLowerCase ''Bread'' = ''bread''" by code_simp
lemma trim_blank: "trim ''  '' = []" by code_simp
lemma trim_tab: "trim [CHR 0x09, CHR '' ''] = []" by code_simp

theorem addItem_claim_witness:
  "trim '' MILK '' \<noteq> [] \<and> trim ''Bread'' \<noteq> [] \<and> ''hp1'' \<noteq> [] \<and>
   dupQuery (toLowerCase (trim '' MILK '')) (milkItems ''hp1'') \<noteq> [] \<and>
   dupQuery (toLowerCase (trim ''Bread'')) (milkItems ''hp1'') = [] \<and>
   addItem ''i2'' 2 '' MILK '' (Some ''hp1'') milkItems = (Inl AlreadyOnList, milkItems) \<and>
   addItem ''i2'' 2 ''Bread'' (Some ''hp1'') milkItems =
     (Inr (),
      milkItems(''hp1'' := milkItems ''hp1'' @
        [\<lparr>item_id = ''i2'', item_name = trim ''Bread'', nameLower = toLowerCase (trim ''Bread''),
          purchased = False, item_createdAt = Some 2\<rparr>])) \<and>
   trim [CHR 0x09, CHR '' ''] = [] \<and>
   addItem ''i2'' 2 [CHR 0x09, CHR '' ''] (Some ''hp1'') milkItems = (Inl Ignored, milkItems) \<and>
   addItem ''i2'' 2 ''Bread'' None milkItems = (Inl Ignored, milkItems) \<and>
   addItem ''i2'' 2 ''Bread'' (Some []) milkItems = (Inl Ignored, milkItems)"
proof -
  have h1: "trim '' MILK '' \<noteq> []" by (simp add: trim_MILK)
  have h2: "trim ''Bread'' \<noteq> []" by (simp add: trim_Bread)
  have h3: "''hp1'' \<noteq> []" by simp
  have h4: "\<exists>i\<in>set (milkItems ''hp1''). nameLower i = toLowerCase (trim '' MILK '')"
    by (simp add: trim_MILK lower_MILK milkItems_def)
  have h5: "\<forall>i\<in>set (milkItems ''hp1''). nameLower i \<noteq> toLowerCase (trim ''Bread'')"
    by (simp add: trim_Bread lower_Bread milkItems_def)
  have h6: "trim [CHR 0x09, CHR '' ''] = []" by (rule trim_tab)
  note c1 = addItem_claim [of "'' MILK ''" "Some ''hp1''" "''i2''" 2 milkItems "''hp1''"]
  note c2 = addItem_claim [of "''Bread''" "Some ''hp1''" "''i2''" 2 milkItems "''hp1''"]
  note c3 = addItem_claim [of "[CHR 0x09, CHR '' '']" "Some ''hp1''" "''i2''" 2 milkItems "''hp1''"]
  note c4 = addItem_claim [of "''Bread''" None "''i2''" 2 milkItems "''hp1''"]
  note c5 = addItem_claim [of "''Bread''" "Some []" "''i2''" 2 milkItems "''hp1''"]
  from c1 h1 h3 h4
  have g1: "addItem ''i2'' 2 '' MILK '' (Some ''hp1'') milkItems = (Inl AlreadyOnList, milkItems)"
    by blast
  from c2 h2 h3 h5
  have g2: "addItem ''i2'' 2 ''Bread'' (Some ''hp1'') milkItems =
     (Inr (),
      milkItems(''hp1'' := milkItems ''hp1'' @
        [\<lparr>item_id = ''i2'', item_name = trim ''Bread'', nameLower = toLowerCase (trim ''Bread''),
          purchased = False, item_createdAt = Some 2\<rparr>]))"
    by blast
  from c3 h6
  have g3: "addItem ''i2'' 2 [CHR 0x09, CHR '' ''] (Some ''hp1'') milkItems = (Inl Ignored, milkItems)"
    by blast
  from c4 have g4: "addItem ''i2'' 2 ''Bread'' None milkItems = (Inl Ignored, milkItems)"
    by blast
  from c5 have g5: "addItem ''i2'' 2 ''Bread'' (Some []) milkItems = (Inl Ignored, milkItems)"
    by blast
  from h4 h5 have d1: "dupQuery (toLowerCase (trim '' MILK '')) (milkItems ''hp1'') \<noteq> []"
    and d2: "dupQuery (toLowerCase (trim ''Bread'')) (milkItems ''hp1'') = []"
    by (simp_all only: dupQuery_Nil_iff) blast+
  from h1 h2 h3 h6 d1 d2 g1 g2 g3 g4 g5 show ?thesis by blast
qed

text \<open>
  Claim C10 as stated fails on a blank name: no item of the empty list has the name, and
  \<^verbatim>\<open>addItem\<close> returns at once without adding one.
\<close>

theorem addItem_blank_counterexample:
  "dupQuery (toLowerCase (trim ''  '')) (noItems ''hp1'') = [] \<and>
   addItem ''i1'' 1 ''  '' (Some ''hp1'') noItems = (Inl Ignored, noItems) \<and>
   length (snd (addItem ''i1'' 1 ''  '' (Some ''hp1'') noItems) ''hp1'') = 0"
  by (simp add: addItem_def trim_blank dupQuery_def noItems_def)

end
